theory Spec2Isabelle
  imports Main "HOL-Library.AList" "HOL-Library.Sublist"
begin

section \<open>Strings\<close>

text \<open>
  A Python \<open>str\<close> is modelled as a \<open>string\<close>: the list of the bytes of its UTF-8
  encoding. \<open>str.lower\<close> is modelled on the ASCII letters, which are the only characters
  that the two search patterns of the tools contain; every other byte is left as it is.
\<close>

definition ascii_uppercase :: string where
  "ascii_uppercase = ''ABCDEFGHIJKLMNOPQRSTUVWXYZ''"

definition ascii_lowercase :: string where
  "ascii_lowercase = ''abcdefghijklmnopqrstuvwxyz''"

definition lower_char :: "char \<Rightarrow> char" where
  "lower_char c =
     (case map_of (zip ascii_uppercase ascii_lowercase) c of Some l \<Rightarrow> l | None \<Rightarrow> c)"

definition str_lower :: "string \<Rightarrow> string" where
  "str_lower s = map lower_char s"

text \<open>The operator \<open>pat in s\<close> on strings: \<open>pat\<close> occurs in \<open>s\<close> as a contiguous block.\<close>

fun str_contains :: "string \<Rightarrow> string \<Rightarrow> bool" where
  "str_contains pat [] = (pat = [])"
| "str_contains pat (c # cs) = (prefix pat (c # cs) \<or> str_contains pat cs)"

section \<open>The weather tool\<close>

definition get_weather :: "string \<Rightarrow> string" where
  \<open>get_weather query =
     (if str_contains ''sf'' (str_lower query) \<or> str_contains ''san francisco'' (str_lower query)
      then ''It's 60 degrees and foggy.''
      else ''It's 90 degrees and sunny.'')\<close>

text \<open>
  What the specification calls a case-insensitive substring match, written without
  reference to the code: some block of the query, as long as the pattern, agrees with the
  pattern letter by letter once upper and lower case are identified.
\<close>

definition same_letter :: "char \<Rightarrow> char \<Rightarrow> bool" where
  "same_letter a b = (lower_char a = lower_char b)"

definition occurs_ignoring_case :: "string \<Rightarrow> string \<Rightarrow> bool" where
  "occurs_ignoring_case pat q =
     list_ex (\<lambda>i. list_all2 same_letter (take (length pat) (drop i q)) pat) [0..<Suc (length q)]"

definition names_san_francisco :: "string \<Rightarrow> bool" where
  "names_san_francisco q =
     (occurs_ignoring_case ''sf'' q \<or> occurs_ignoring_case ''san francisco'' q)"

section \<open>The time tool\<close>

text \<open>
  \<open>datetime.datetime.now(tz)\<close> reads the wall clock in a time zone. The reading is an
  input of the model: the calendar fields of the local time, the abbreviation of the zone
  that is in force (\<open>%Z\<close>) and its offset from UTC in seconds (\<open>%z\<close>).
\<close>

record local_time =
  year :: nat
  month :: nat
  day :: nat
  hour :: nat
  minute :: nat
  second :: nat
  tzname :: string
  utcoffset :: int

definition digit :: "nat \<Rightarrow> char" where
  "digit n = ''0123456789'' ! n"

definition zero_pad2 :: "nat \<Rightarrow> string" where
  "zero_pad2 n = [digit (n div 10), digit (n mod 10)]"

definition zero_pad4 :: "nat \<Rightarrow> string" where
  "zero_pad4 n =
     [digit (n div 1000), digit (n div 100 mod 10), digit (n div 10 mod 10), digit (n mod 10)]"

text \<open>\<open>%z\<close>: sign, hours and minutes of the offset, and its seconds when there are any.\<close>

definition offset_text :: "int \<Rightarrow> string" where
  "offset_text off =
     (let a = nat \<bar>off\<bar> in
        (if off < 0 then CHR ''-'' else CHR ''+'') #
        zero_pad2 (a div 3600) @ zero_pad2 (a div 60 mod 60) @
        (if a mod 60 = 0 then [] else zero_pad2 (a mod 60)))"

text \<open>The directives of \<open>strftime\<close> that the tool's format uses.\<close>

definition directive :: "char \<Rightarrow> local_time \<Rightarrow> string" where
  "directive d t =
     (if d = CHR ''Y'' then zero_pad4 (year t)
      else if d = CHR ''m'' then zero_pad2 (month t)
      else if d = CHR ''d'' then zero_pad2 (day t)
      else if d = CHR ''H'' then zero_pad2 (hour t)
      else if d = CHR ''M'' then zero_pad2 (minute t)
      else if d = CHR ''S'' then zero_pad2 (second t)
      else if d = CHR ''Z'' then tzname t
      else if d = CHR ''z'' then offset_text (utcoffset t)
      else [CHR ''%'', d])"

fun strftime :: "string \<Rightarrow> local_time \<Rightarrow> string" where
  "strftime [] t = []"
| "strftime [c] t = [c]"
| "strftime (c # d # fmt) t =
     (if c = CHR ''%'' then directive d t @ strftime fmt t else c # strftime (d # fmt) t)"

text \<open>
  The tool: \<open>now\<close> maps the identifier of a zone to the reading of the clock in that zone
  (\<open>datetime.datetime.now(ZoneInfo(tz_identifier))\<close>).
\<close>

definition get_current_time :: "(string \<Rightarrow> local_time) \<Rightarrow> string \<Rightarrow> string" where
  \<open>get_current_time now query =
     (if str_contains ''sf'' (str_lower query) \<or> str_contains ''san francisco'' (str_lower query)
      then ''The current time for query '' @ query @ '' is '' @
           strftime ''%Y-%m-%d %H:%M:%S %Z%z'' (now ''America/Los_Angeles'')
      else ''Sorry, I don't have timezone information for query: '' @ query @ ''.'')\<close>

text \<open>
  The shape of a timestamp, written without reference to the code: a field of \<open>n\<close>
  decimal digits and the number it denotes, the clock readings that a \<open>datetime\<close> can
  hold, and the text of an offset.
\<close>

definition is_digit :: "char \<Rightarrow> bool" where
  "is_digit c = (c \<in> set ''0123456789'')"

definition digit_value :: "char \<Rightarrow> nat" where
  "digit_value c = (case map_of (zip ''0123456789'' [0..<10]) c of Some v \<Rightarrow> v | None \<Rightarrow> 0)"

definition decimal :: "string \<Rightarrow> nat" where
  "decimal s = foldl (\<lambda>a c. 10 * a + digit_value c) 0 s"

definition field :: "nat \<Rightarrow> nat \<Rightarrow> string \<Rightarrow> bool" where
  "field n v s = (length s = n \<and> list_all is_digit s \<and> decimal s = v)"

definition valid_local_time :: "local_time \<Rightarrow> bool" where
  "valid_local_time t =
     (1000 \<le> year t \<and> year t \<le> 9999 \<and> 1 \<le> month t \<and> month t \<le> 12 \<and>
      1 \<le> day t \<and> day t \<le> 31 \<and> hour t < 24 \<and> minute t < 60 \<and> second t < 60 \<and>
      \<bar>utcoffset t\<bar> < 86400)"

definition is_offset :: "int \<Rightarrow> string \<Rightarrow> bool" where
  "is_offset off s =
     (case s of
        [] \<Rightarrow> False
      | sg # ds \<Rightarrow>
          sg = (if off < 0 then CHR ''-'' else CHR ''+'') \<and>
          list_all is_digit ds \<and> (length ds = 4 \<or> length ds = 6) \<and>
          int (decimal (take 2 ds)) * 3600 + int (decimal (take 2 (drop 2 ds))) * 60 +
            int (decimal (drop 4 ds)) = \<bar>off\<bar>)"

section \<open>Substring search and case folding\<close>

lemma str_contains_iff: "str_contains pat s \<longleftrightarrow> (\<exists>ps ss. s = ps @ pat @ ss)"
proof (induction s)
  case Nil
  then show ?case by auto
next
  case (Cons c cs)
  show ?case
  proof
    assume "str_contains pat (c # cs)"
    then consider "prefix pat (c # cs)" | "str_contains pat cs" by auto
    then show "\<exists>ps ss. c # cs = ps @ pat @ ss"
    proof cases
      case 1
      then obtain zs where "c # cs = pat @ zs" by (auto simp: prefix_def)
      then have "c # cs = [] @ pat @ zs" by simp
      then show ?thesis by blast
    next
      case 2
      with Cons.IH obtain ps ss where "cs = ps @ pat @ ss" by blast
      then have "c # cs = (c # ps) @ pat @ ss" by simp
      then show ?thesis by blast
    qed
  next
    assume "\<exists>ps ss. c # cs = ps @ pat @ ss"
    then obtain ps ss where eq: "c # cs = ps @ pat @ ss" by blast
    show "str_contains pat (c # cs)"
    proof (cases ps)
      case Nil
      with eq have "prefix pat (c # cs)" by (simp add: prefix_def)
      then show ?thesis by simp
    next
      case (Cons p ps')
      with eq have "cs = ps' @ pat @ ss" by simp
      with Cons.IH have "str_contains pat cs" by blast
      then show ?thesis by simp
    qed
  qed
qed

lemma block_iff:
  "(\<exists>ps ss. s = ps @ pat @ ss) \<longleftrightarrow> (\<exists>i \<le> length s. take (length pat) (drop i s) = pat)"
proof
  assume "\<exists>ps ss. s = ps @ pat @ ss"
  then obtain ps ss where "s = ps @ pat @ ss" by blast
  then have "length ps \<le> length s \<and> take (length pat) (drop (length ps) s) = pat" by simp
  then show "\<exists>i \<le> length s. take (length pat) (drop i s) = pat" by blast
next
  assume "\<exists>i \<le> length s. take (length pat) (drop i s) = pat"
  then obtain i where i: "i \<le> length s" "take (length pat) (drop i s) = pat" by blast
  have "s = take i s @ take (length pat) (drop i s) @ drop (length pat) (drop i s)"
    by (simp only: append_take_drop_id)
  with i show "\<exists>ps ss. s = ps @ pat @ ss" by metis
qed

lemma list_ex_upt_Suc: "list_ex P [0..<Suc n] \<longleftrightarrow> (\<exists>i \<le> n. P i)"
proof -
  have "set [0..<Suc n] = {i. i \<le> n}"
    by (auto simp del: upt_Suc)
  then show ?thesis
    by (simp only: list_ex_iff) blast
qed

lemma list_all2_same_letter:
  "list_all2 same_letter xs ys \<longleftrightarrow> map lower_char xs = map lower_char ys"
  by (induction xs arbitrary: ys) (auto simp: same_letter_def list_all2_Cons1)

lemma occurs_ignoring_case_iff:
  assumes "map lower_char pat = pat"
  shows "occurs_ignoring_case pat q \<longleftrightarrow> str_contains pat (str_lower q)"
proof -
  have "occurs_ignoring_case pat q \<longleftrightarrow>
        (\<exists>i \<le> length q. map lower_char (take (length pat) (drop i q)) = pat)"
    using assms
    by (simp only: occurs_ignoring_case_def list_ex_upt_Suc list_all2_same_letter)
  also have "\<dots> \<longleftrightarrow>
        (\<exists>i \<le> length (str_lower q). take (length pat) (drop i (str_lower q)) = pat)"
    by (simp add: str_lower_def take_map drop_map)
  also have "\<dots> \<longleftrightarrow> str_contains pat (str_lower q)"
    by (simp add: str_contains_iff block_iff)
  finally show ?thesis .
qed

lemma names_san_francisco_iff:
  "names_san_francisco q \<longleftrightarrow>
     str_contains ''sf'' (str_lower q) \<or> str_contains ''san francisco'' (str_lower q)"
proof -
  have a: "map lower_char ''sf'' = ''sf''"
    by (simp add: lower_char_def ascii_uppercase_def ascii_lowercase_def)
  have b: "map lower_char ''san francisco'' = ''san francisco''"
    by (simp add: lower_char_def ascii_uppercase_def ascii_lowercase_def)
  show ?thesis
    unfolding names_san_francisco_def
    by (simp only: occurs_ignoring_case_iff [OF a] occurs_ignoring_case_iff [OF b])
qed

section \<open>Claims about the weather tool\<close>

text \<open>
  C3. For every query: when the query contains "sf" or "san francisco", upper and lower
  case identified, \<open>get_weather\<close> returns exactly "It's 60 degrees and foggy."; for every
  other query it returns exactly "It's 90 degrees and sunny.".
\<close>

theorem get_weather_cases:
  \<open>(names_san_francisco q \<longrightarrow> get_weather q = ''It's 60 degrees and foggy.'') \<and>
   (\<not> names_san_francisco q \<longrightarrow> get_weather q = ''It's 90 degrees and sunny.'')\<close>
  by (simp add: names_san_francisco_iff get_weather_def)

theorem get_weather_cases_witness:
  \<open>names_san_francisco ''Weather in SF?'' \<and>
   get_weather ''Weather in SF?'' = ''It's 60 degrees and foggy.'' \<and>
   \<not> names_san_francisco ''London'' \<and>
   get_weather ''London'' = ''It's 90 degrees and sunny.''\<close>
proof -
  have m: "names_san_francisco ''Weather in SF?''"
    by code_simp
  have n: "\<not> names_san_francisco ''London''"
    by code_simp
  from m n get_weather_cases [of "''Weather in SF?''"] get_weather_cases [of "''London''"]
  show ?thesis by blast
qed

end
